theory Spec2Isabelle
  imports Complex_Main "HOL-Library.Sublist" "HOL-Library.AList"
begin

section \<open>Data model\<close>

text \<open>
  The service (\<^verbatim>\<open>service/o365graph.py\<close>) talks to a token endpoint and to the Graph API
  through the \<^verbatim>\<open>requests\<close> library and hands parsed JSON around. A parsed JSON value
  is modelled by \<open>json\<close>; an object is the association list of a Python \<^verbatim>\<open>dict\<close> in
  insertion order, which is the order \<^verbatim>\<open>entity.items()\<close> iterates in. Python's
  \<^verbatim>\<open>None\<close> is \<open>JNull\<close>. The source never computes with a JSON number, so integers
  stand for all of them.
\<close>

datatype json =
    JNull
  | JBool bool
  | JNum int
  | JStr string
  | JArr "json list"
  | JObj "(string \<times> json) list"

text \<open>
  Exceptions are values. \<open>RuntimeError\<close> is what a bare \<^verbatim>\<open>raise\<close> with no active
  exception produces; \<open>AssertionError\<close> carries the status code and the response text that
  the source formats into its message; \<open>RequestsError\<close> is an exception of the
  \<^verbatim>\<open>requests\<close> library raised while preparing a request (no scheme in the URL);
  \<open>TransportError\<close> is whatever the library raises while talking to the network;
  \<open>OverflowError\<close> is what \<^verbatim>\<open>time.sleep\<close> raises for a delay it cannot represent.
\<close>

datatype error =
    RuntimeError string
  | TypeError
  | AttributeError
  | ValueError
  | UnboundLocalError
  | OverflowError
  | AssertionError nat string
  | RequestsError
  | TransportError string

type_synonym args = "(string \<times> string) list"
type_synonym header_dict = "(string \<times> string) list"

text \<open>
  A response as the source reads it: \<^verbatim>\<open>status_code\<close>, \<^verbatim>\<open>content\<close> (also read as
  \<^verbatim>\<open>text\<close>), and the result of \<^verbatim>\<open>resp.json()\<close>, which is \<open>None\<close> when the body is
  not JSON (the call raises a \<^verbatim>\<open>ValueError\<close>).
\<close>

record response =
  status_code :: nat
  content :: string
  json_body :: "json option"

text \<open>\<^verbatim>\<open>requests.Request(method, url, headers=..., **kwargs)\<close>; the only keyword the
  source passes is \<^verbatim>\<open>params\<close>.\<close>

record http_request =
  http_method :: string
  url :: string
  headers :: "header_dict option"
  params :: "args option"

text \<open>
  Every call that reaches out of the program is recorded, in order, with how it ended:
  \<open>TokenPost a\<close> is the \<^verbatim>\<open>requests.post\<close> to the token endpoint, \<open>Sent req a\<close> is a run of
  \<^verbatim>\<open>self.session.send(req.prepare())\<close> for the request \<open>req\<close>, \<open>WebGet u a\<close> is the plain
  \<^verbatim>\<open>requests.get(u)\<close>, and \<open>Slept x\<close> is a call of \<^verbatim>\<open>time.sleep\<close> with its argument
  (seconds). The answer \<open>a\<close> is the response, or the exception the call ended with. The
  library refuses a URL without an http scheme or without a host while it prepares the
  request: that call, too, ends with an exception, and nothing has reached the network.
\<close>

datatype event =
    TokenPost "error + response"
  | Sent http_request "error + response"
  | WebGet string "error + response"
  | Slept rat

text \<open>
  The outside world and the library functions the source calls but does not define.
  A server may answer as it likes, depending on everything that happened before, so each
  answer is a function of the history; an answer is a response or an exception of the
  library. \<open>py_float\<close> is Python's \<^verbatim>\<open>float()\<close> on a string; \<open>dotdictify\<close> and
  \<open>dd_get\<close> are the constructor and the dotted-path \<^verbatim>\<open>get\<close> of the \<^verbatim>\<open>dotdictify\<close>
  package.
\<close>

record env =
  token_post :: "event list \<Rightarrow> error + response"
  session_send :: "event list \<Rightarrow> http_request \<Rightarrow> error + response"
  plain_get :: "event list \<Rightarrow> string \<Rightarrow> error + response"
  py_float :: "string \<Rightarrow> error + rat"
  dotdictify :: "json \<Rightarrow> error + json"
  dd_get :: "json \<Rightarrow> string \<Rightarrow> json"

text \<open>The settings the modelled functions read from \<^verbatim>\<open>config\<close>. \<open>sleep\<close> is \<open>None\<close>
  when the attribute was never set (\<^verbatim>\<open>hasattr(config, "sleep")\<close> is false).\<close>

record config =
  entities_path :: string
  next_page :: string
  sleep :: "string option"

text \<open>
  The fields of class \<^verbatim>\<open>Graph\<close>. \<open>session\<close> is whether \<^verbatim>\<open>self.session\<close> has been
  created; \<open>auth_header\<close> is \<open>None\<close> or the dict \<^verbatim>\<open>{"Authorization": "Bearer ..."}\<close>.
  \<open>history\<close> is not a field of the class: it is the record of effects so far.
\<close>

record graph =
  session :: bool
  auth_header :: "header_dict option"
  graph_url :: string
  history :: "event list"

section \<open>Library behaviour used by the source\<close>

text \<open>\<^verbatim>\<open>Response.ok\<close>: no \<^verbatim>\<open>HTTPError\<close> from \<^verbatim>\<open>raise_for_status()\<close>, which raises
  for a status from 400 up to 599.\<close>

definition ok :: "response \<Rightarrow> bool" where
  "ok r = (\<not> (400 \<le> status_code r \<and> status_code r < 600))"

text \<open>\<^verbatim>\<open>resp.json().get(key)\<close>: the body must parse, and the parsed value must be a
  dict; a missing key gives \<^verbatim>\<open>None\<close>.\<close>

definition json_get :: "response \<Rightarrow> string \<Rightarrow> error + json" where
  "json_get r k =
     (case json_body r of
        None \<Rightarrow> Inl ValueError
      | Some (JObj kvs) \<Rightarrow> (case map_of kvs k of None \<Rightarrow> Inr JNull | Some v \<Rightarrow> Inr v)
      | Some _ \<Rightarrow> Inl AttributeError)"

text \<open>Python truthiness of a JSON value, for \<^verbatim>\<open>if site_id:\<close> and \<^verbatim>\<open>if drive_url:\<close>.\<close>

fun truthy :: "json \<Rightarrow> bool" where
  "truthy JNull = False"
| "truthy (JBool b) = b"
| "truthy (JNum n) = (n \<noteq> 0)"
| "truthy (JStr s) = (s \<noteq> [])"
| "truthy (JArr xs) = (xs \<noteq> [])"
| "truthy (JObj kvs) = (kvs \<noteq> [])"

section \<open>Token Manager: \<^verbatim>\<open>Graph.get_token\<close>\<close>

text \<open>
  The POST to the token endpoint is recorded with its answer. A response that is not
  \<open>ok\<close> reaches the bare \<^verbatim>\<open>raise\<close>; otherwise \<^verbatim>\<open>"Bearer " + access_token\<close> needs
  a string, and only then is \<^verbatim>\<open>self.auth_header\<close> bound to a new dict.
\<close>

definition get_token :: "env \<Rightarrow> graph \<Rightarrow> (error + unit) \<times> graph" where
  "get_token E g =
     (let a = token_post E (history g);
          g1 = g\<lparr>history := history g @ [TokenPost a]\<rparr>
      in case a of
           Inl e \<Rightarrow> (Inl e, g1)
         | Inr resp \<Rightarrow>
             if \<not> ok resp then (Inl (RuntimeError ''No active exception to reraise''), g1)
             else (case json_get resp ''access_token'' of
                     Inl e \<Rightarrow> (Inl e, g1)
                   | Inr (JStr t) \<Rightarrow>
                       (Inr (), g1\<lparr>auth_header := Some [(''Authorization'', ''Bearer '' @ t)]\<rparr>)
                   | Inr _ \<Rightarrow> (Inl TypeError, g1)))"

section \<open>Authenticated Request Executor: \<^verbatim>\<open>Graph.request\<close>\<close>

text \<open>\<^verbatim>\<open>self.session.send(req.prepare())\<close>: the request goes out and the exchange is
  recorded.\<close>

definition send :: "env \<Rightarrow> http_request \<Rightarrow> graph \<Rightarrow> (error + response) \<times> graph" where
  "send E req g =
     (let a = session_send E (history g) req
      in (a, g\<lparr>history := history g @ [Sent req a]\<rparr>))"

text \<open>
  The first statement of \<^verbatim>\<open>request\<close>: on first use the session is created and a token
  acquired. The session is assigned before \<^verbatim>\<open>get_token\<close> runs, so it stays set when
  the acquisition fails.

  \<^verbatim>\<open>req\<close> is built once, from the value \<^verbatim>\<open>self.auth_header\<close> has at that moment.
  \<^verbatim>\<open>get_token\<close> binds \<^verbatim>\<open>self.auth_header\<close> to a fresh dict and never changes a dict
  in place, so \<^verbatim>\<open>req.headers\<close> keeps the dict it was given and both calls of
  \<^verbatim>\<open>req.prepare()\<close> produce the same request. The URL is whatever value the caller
  holds; preparing a request whose URL is not a string raises inside the library.
\<close>

definition open_session :: "env \<Rightarrow> graph \<Rightarrow> (error + unit) \<times> graph" where
  "open_session E g =
     (if \<not> session g then get_token E (g\<lparr>session := True\<rparr>) else (Inr (), g))"

definition request :: "env \<Rightarrow> string \<Rightarrow> json \<Rightarrow> args option \<Rightarrow> graph \<Rightarrow> (error + response) \<times> graph" where
  "request E m u kw g =
     (case open_session E g of
        (Inl e, g1) \<Rightarrow> (Inl e, g1)
      | (Inr _, g1) \<Rightarrow>
          (case u of
             JStr s \<Rightarrow>
               (let req = \<lparr>http_method = m, url = s, headers = auth_header g1, params = kw\<rparr>
                in case send E req g1 of
                     (Inl e, g2) \<Rightarrow> (Inl e, g2)
                   | (Inr resp, g2) \<Rightarrow>
                       if status_code resp = 401 then
                         (case get_token E g2 of
                            (Inl e, g3) \<Rightarrow> (Inl e, g3)
                          | (Inr _, g3) \<Rightarrow> send E req g3)
                       else (Inr resp, g2))
           | _ \<Rightarrow> (Inl RequestsError, g1)))"

section \<open>Paged Entity Fetcher: \<^verbatim>\<open>Graph.__get_all_paged_entities\<close>\<close>

text \<open>\<^verbatim>\<open>for entity in value\<close>: a list gives its elements, a dict its keys, a string its
  characters; anything else is not iterable.\<close>

fun py_iter :: "json \<Rightarrow> error + json list" where
  "py_iter (JArr xs) = Inr xs"
| "py_iter (JObj kvs) = Inr (map (\<lambda>kv. JStr (fst kv)) kvs)"
| "py_iter (JStr s) = Inr (map (\<lambda>c. JStr [c]) s)"
| "py_iter _ = Inl TypeError"

text \<open>\<^verbatim>\<open>needle in value\<close> for a string needle: substring of a string, element of a
  list, key of a dict; a type error on a number, a boolean or \<^verbatim>\<open>None\<close>.\<close>

fun py_in :: "string \<Rightarrow> json \<Rightarrow> error + bool" where
  "py_in s (JStr t) = Inr (sublist s t)"
| "py_in s (JArr xs) = Inr (JStr s \<in> set xs)"
| "py_in s (JObj kvs) = Inr (s \<in> set (map fst kvs))"
| "py_in s _ = Inl TypeError"

text \<open>
  \<^verbatim>\<open>if hasattr(config, "sleep"): sleep(float(config.sleep))\<close>. \<^verbatim>\<open>time.sleep\<close> takes
  seconds; it rejects a negative argument with a \<^verbatim>\<open>ValueError\<close> and one beyond what
  fits a signed 64-bit count of nanoseconds with an \<^verbatim>\<open>OverflowError\<close>. A rational
  stands for the float, so for a string that \<^verbatim>\<open>float()\<close> reads as an infinity or as
  not-a-number \<open>py_float\<close> answers with the exception \<^verbatim>\<open>time.sleep\<close> raises for it.
\<close>

definition do_sleep :: "env \<Rightarrow> config \<Rightarrow> graph \<Rightarrow> (error + unit) \<times> graph" where
  "do_sleep E cfg g =
     (case sleep cfg of
        None \<Rightarrow> (Inr (), g)
      | Some s \<Rightarrow>
          (case py_float E s of
             Inl e \<Rightarrow> (Inl e, g)
           | Inr x \<Rightarrow>
               if x < 0 then (Inl ValueError, g)
               else if 2 ^ 63 \<le> x * 10 ^ 9 then (Inl OverflowError, g)
               else (Inr (), g\<lparr>history := history g @ [Slept x]\<rparr>)))"

text \<open>
  One pass through the body of the \<^verbatim>\<open>while\<close> loop, up to the point where the page has
  been parsed: the entities to yield and the value \<^verbatim>\<open>res.get(config.next_page)\<close>.
\<close>

definition fetch_page ::
  "env \<Rightarrow> config \<Rightarrow> args \<Rightarrow> json \<Rightarrow> graph \<Rightarrow> (error + json list \<times> json) \<times> graph" where
  "fetch_page E cfg a np g =
     (case do_sleep E cfg g of
        (Inl e, g1) \<Rightarrow> (Inl e, g1)
      | (Inr _, g1) \<Rightarrow>
          (case py_in ''$skiptoken'' np of
             Inl e \<Rightarrow> (Inl e, g1)
           | Inr has \<Rightarrow>
               (case request E ''GET'' np (if \<not> has then Some a else None) g1 of
                  (Inl e, g2) \<Rightarrow> (Inl e, g2)
                | (Inr req, g2) \<Rightarrow>
                    if \<not> ok req then (Inl (AssertionError (status_code req) (content req)), g2)
                    else (case json_body req of
                            None \<Rightarrow> (Inl ValueError, g2)
                          | Some j \<Rightarrow>
                              (case dotdictify E j of
                                 Inl e \<Rightarrow> (Inl e, g2)
                               | Inr res \<Rightarrow>
                                   (case py_iter (dd_get E res (entities_path cfg)) of
                                      Inl e \<Rightarrow> (Inl e, g2)
                                    | Inr ents \<Rightarrow>
                                        (Inr (ents, dd_get E res (next_page cfg)), g2)))))))"

text \<open>
  The generator, consumed to its end: the entities it yields, how it ended and the state
  afterwards. The loop runs as long as the server hands out cursors, so it is given fuel,
  one unit per page: \<open>OutOfFuel\<close> says that the loop was still running when the fuel was
  spent, \<open>Finished\<close> that it left the \<^verbatim>\<open>while\<close>, \<open>Raised\<close> that an exception ended it.
\<close>

datatype outcome = Finished | Raised error | OutOfFuel

fun paged_loop ::
  "env \<Rightarrow> config \<Rightarrow> args \<Rightarrow> nat \<Rightarrow> json \<Rightarrow> graph \<Rightarrow> json list \<times> outcome \<times> graph" where
  "paged_loop E cfg a 0 np g = (if np = JNull then ([], Finished, g) else ([], OutOfFuel, g))"
| "paged_loop E cfg a (Suc n) np g =
     (if np = JNull then ([], Finished, g)
      else case fetch_page E cfg a np g of
             (Inl e, g1) \<Rightarrow> ([], Raised e, g1)
           | (Inr (ents, nxt), g1) \<Rightarrow>
               (case paged_loop E cfg a n nxt g1 of
                  (ys, r, g2) \<Rightarrow> (ents @ ys, r, g2)))"

definition get_all_paged_entities ::
  "env \<Rightarrow> config \<Rightarrow> nat \<Rightarrow> string \<Rightarrow> args \<Rightarrow> graph \<Rightarrow> json list \<times> outcome \<times> graph" where
  "get_all_paged_entities E cfg fuel path a g =
     paged_loop E cfg a fuel (JStr (graph_url g @ path)) g"

section \<open>Site resolution: \<^verbatim>\<open>set_group_id\<close> and \<^verbatim>\<open>Graph.__get_all_siteurls\<close>\<close>

text \<open>\<^verbatim>\<open>k.split(":")\<close>: never empty; the last element is what follows the last
  separator.\<close>

fun split_sep :: "char \<Rightarrow> string \<Rightarrow> string list" where
  "split_sep c [] = [[]]"
| "split_sep c (x # xs) =
     (if x = c then [] # split_sep c xs
      else case split_sep c xs of
             w # ws \<Rightarrow> (x # w) # ws
           | [] \<Rightarrow> [[x]])"

definition is_id_key :: "string \<Rightarrow> bool" where
  "is_id_key k = (last (split_sep CHR '':'' k) = ''id'')"

text \<open>The loop over \<^verbatim>\<open>entity.items()\<close>: \<open>groupid\<close> is \<open>None\<close> while the local variable is
  unbound, and every matching key assigns it.\<close>

fun group_id_loop :: "(string \<times> json) list \<Rightarrow> json option \<Rightarrow> json option" where
  "group_id_loop [] groupid = groupid"
| "group_id_loop ((k, v) # kvs) groupid =
     group_id_loop kvs (if is_id_key k then Some v else groupid)"

definition set_group_id :: "json \<Rightarrow> error + json" where
  "set_group_id entity =
     (case entity of
        JObj kvs \<Rightarrow>
          (case group_id_loop kvs None of
             None \<Rightarrow> Inl UnboundLocalError
           | Some v \<Rightarrow> Inr v)
      | _ \<Rightarrow> Inl AttributeError)"

text \<open>\<^verbatim>\<open>res['_id'] = value\<close> on the dict built from the response.\<close>

fun set_item :: "string \<Rightarrow> json \<Rightarrow> json \<Rightarrow> json" where
  "set_item k v (JObj kvs) = JObj (AList.update k v kvs)"
| "set_item k v j = j"

text \<open>The body of the \<^verbatim>\<open>for\<close> loop for one entity: \<open>Inr None\<close> when nothing is yielded
  (the branch that logs \<^verbatim>\<open>no url\<close>).\<close>

definition siteurl_step :: "env \<Rightarrow> json \<Rightarrow> graph \<Rightarrow> (error + json option) \<times> graph" where
  "siteurl_step E entity g =
     (case set_group_id entity of
        Inl e \<Rightarrow> (Inl e, g)
      | Inr (JStr gid) \<Rightarrow>
          (case request E ''GET'' (JStr (graph_url g @ ''groups/'' @ gid @ ''/sites/root'')) None g of
             (Inl e, g1) \<Rightarrow> (Inl e, g1)
           | (Inr req, g1) \<Rightarrow>
               if \<not> ok req then (Inr None, g1)
               else (case json_body req of
                       None \<Rightarrow> (Inl ValueError, g1)
                     | Some j \<Rightarrow>
                         (case dotdictify E j of
                            Inl e \<Rightarrow> (Inl e, g1)
                          | Inr res \<Rightarrow>
                              (case set_group_id entity of
                                 Inl e \<Rightarrow> (Inl e, g1)
                               | Inr v \<Rightarrow> (Inr (Some (set_item ''_id'' v res)), g1)))))
      | Inr _ \<Rightarrow> (Inl TypeError, g))"

fun siteurls_loop :: "env \<Rightarrow> json list \<Rightarrow> graph \<Rightarrow> json list \<times> outcome \<times> graph" where
  "siteurls_loop E [] g = ([], Finished, g)"
| "siteurls_loop E (entity # rest) g =
     (case siteurl_step E entity g of
        (Inl e, g1) \<Rightarrow> ([], Raised e, g1)
      | (Inr y, g1) \<Rightarrow>
          (case siteurls_loop E rest g1 of
             (ys, r, g2) \<Rightarrow> ((case y of None \<Rightarrow> [] | Some res \<Rightarrow> [res]) @ ys, r, g2)))"

definition get_all_siteurls :: "env \<Rightarrow> json \<Rightarrow> graph \<Rightarrow> json list \<times> outcome \<times> graph" where
  "get_all_siteurls E posted_entities g =
     (case py_iter posted_entities of
        Inl e \<Rightarrow> ([], Raised e, g)
      | Inr ents \<Rightarrow> siteurls_loop E ents g)"

section \<open>Resolution Chain\<close>

text \<open>Each lookup returns Python's \<^verbatim>\<open>None\<close> (\<open>JNull\<close>, or \<open>None\<close> where the value is a
  string built by the source) when its request is not \<open>ok\<close>.\<close>

definition get_sharepoint_site_id :: "env \<Rightarrow> string \<Rightarrow> graph \<Rightarrow> (error + json) \<times> graph" where
  "get_sharepoint_site_id E site g =
     (case request E ''GET'' (JStr (graph_url g @ ''sites/'' @ site)) None g of
        (Inl e, g1) \<Rightarrow> (Inl e, g1)
      | (Inr resp, g1) \<Rightarrow>
          if \<not> ok resp then (Inr JNull, g1) else (json_get resp ''id'', g1))"

definition get_site_documents_drive_url ::
  "env \<Rightarrow> string \<Rightarrow> graph \<Rightarrow> (error + string option) \<times> graph" where
  "get_site_documents_drive_url E site g =
     (case get_sharepoint_site_id E site g of
        (Inl e, g1) \<Rightarrow> (Inl e, g1)
      | (Inr site_id, g1) \<Rightarrow>
          if truthy site_id then
            (case site_id of
               JStr sid \<Rightarrow>
                 (let u = graph_url g1 @ ''/sites/'' @ sid @ ''/drive''
                  in case request E ''GET'' (JStr u) None g1 of
                       (Inl e, g2) \<Rightarrow> (Inl e, g2)
                     | (Inr resp, g2) \<Rightarrow>
                         if \<not> ok resp then (Inr None, g2)
                         else (case json_get resp ''id'' of
                                 Inl e \<Rightarrow> (Inl e, g2)
                               | Inr (JStr drive_id) \<Rightarrow>
                                   (Inr (Some (u @ ''s/'' @ drive_id @ ''/root:/'')), g2)
                               | Inr _ \<Rightarrow> (Inl TypeError, g2)))
             | _ \<Rightarrow> (Inl TypeError, g1))
          else (Inr None, g1))"

definition get_file_download_url ::
  "env \<Rightarrow> string \<Rightarrow> string \<Rightarrow> graph \<Rightarrow> (error + json) \<times> graph" where
  "get_file_download_url E path site g =
     (case get_site_documents_drive_url E site g of
        (Inl e, g1) \<Rightarrow> (Inl e, g1)
      | (Inr drive_url, g1) \<Rightarrow>
          (case drive_url of
             None \<Rightarrow> (Inr JNull, g1)
           | Some d \<Rightarrow>
               if d \<noteq> [] then
                 (case request E ''GET'' (JStr (d @ path)) None g1 of
                    (Inl e, g2) \<Rightarrow> (Inl e, g2)
                  | (Inr resp, g2) \<Rightarrow>
                      if \<not> ok resp then (Inr JNull, g2)
                      else (json_get resp ''@microsoft.graph.downloadUrl'', g2))
               else (Inr JNull, g1)))"

text \<open>
  \<^verbatim>\<open>get_file\<close> does not touch \<^verbatim>\<open>self\<close>: the lookup goes through the module-level
  \<^verbatim>\<open>data_access_layer\<close>, and \<open>g\<close> is the state of that object.
  \<^verbatim>\<open>requests.get(download_url)\<close> follows with no test of \<^verbatim>\<open>download_url\<close>. Given
  \<^verbatim>\<open>None\<close> (or any value that is not a string) the library raises while preparing the
  request; given a string, the GET goes out without the bearer header.
\<close>

definition get_file :: "env \<Rightarrow> string \<Rightarrow> string \<Rightarrow> graph \<Rightarrow> (error + string option) \<times> graph" where
  "get_file E path site g =
     (case get_file_download_url E path site g of
        (Inl e, g1) \<Rightarrow> (Inl e, g1)
      | (Inr download_url, g1) \<Rightarrow>
          (case download_url of
             JStr u \<Rightarrow>
               (let a = plain_get E (history g1) u;
                    g2 = g1\<lparr>history := history g1 @ [WebGet u a]\<rparr>
                in case a of
                     Inl e \<Rightarrow> (Inl e, g2)
                   | Inr resp \<Rightarrow>
                       if \<not> ok resp then (Inr None, g2) else (Inr (Some (content resp)), g2))
           | _ \<Rightarrow> (Inl RequestsError, g1)))"

section \<open>Streaming Encoder: \<^verbatim>\<open>stream_json\<close>\<close>

text \<open>
  The input is a generator consumed to its end: the rows it yields and the exception that
  ended it, if any. The output is the chunks yielded, and the same exception. \<open>dumps\<close> is
  \<^verbatim>\<open>json.dumps\<close>.
\<close>

fun stream_rows :: "(json \<Rightarrow> string) \<Rightarrow> bool \<Rightarrow> json list \<Rightarrow> string list" where
  "stream_rows dumps first [] = []"
| "stream_rows dumps first (row # rest) =
     (if \<not> first then ['',''] else []) @ [dumps row] @ stream_rows dumps False rest"

definition stream_json ::
  "(json \<Rightarrow> string) \<Rightarrow> json list \<times> error option \<Rightarrow> string list \<times> error option" where
  "stream_json dumps entities =
     (case entities of
        (rows, None) \<Rightarrow> ([''[''] @ stream_rows dumps True rows @ ['']''], None)
      | (rows, Some e) \<Rightarrow> ([''[''] @ stream_rows dumps True rows, Some e))"

section \<open>Example worlds\<close>

text \<open>
  Concrete worlds for evaluating the model: a scripted world answers the k-th call of each
  kind with the k-th entry of a list, and refuses, as the library does, a URL that does not
  start with \<^verbatim>\<open>http://\<close> or \<^verbatim>\<open>https://\<close> and a host. \<open>plain_float\<close> reads an unsigned
  decimal integer, \<open>plain_dotdictify\<close> and \<open>plain_get_key\<close> treat keys without dots.
\<close>

definition mk_response :: "nat \<Rightarrow> string \<Rightarrow> json option \<Rightarrow> response" where
  "mk_response s c j = \<lparr>status_code = s, content = c, json_body = j\<rparr>"

fun is_token_post :: "event \<Rightarrow> bool" where
  "is_token_post (TokenPost a) = True"
| "is_token_post e = False"

fun is_sent :: "event \<Rightarrow> bool" where
  "is_sent (Sent r a) = True"
| "is_sent e = False"

fun is_web_get :: "event \<Rightarrow> bool" where
  "is_web_get (WebGet u a) = True"
| "is_web_get e = False"

definition answer_at :: "(error + response) list \<Rightarrow> nat \<Rightarrow> error + response" where
  "answer_at xs n = (if n < length xs then xs ! n else Inl (TransportError ''no answer''))"

fun digits_value :: "string \<Rightarrow> nat \<Rightarrow> nat option" where
  "digits_value [] acc = Some acc"
| "digits_value (c # cs) acc =
     (let d = (of_char c :: nat)
      in if 48 \<le> d \<and> d \<le> 57 then digits_value cs (10 * acc + (d - 48)) else None)"

definition plain_float :: "string \<Rightarrow> error + rat" where
  "plain_float s =
     (case (if s = [] then None else digits_value s 0) of
        None \<Rightarrow> Inl ValueError
      | Some n \<Rightarrow> Inr (of_nat n))"

definition plain_dotdictify :: "json \<Rightarrow> error + json" where
  "plain_dotdictify j =
     (case j of JNull \<Rightarrow> Inr (JObj []) | JObj kvs \<Rightarrow> Inr (JObj kvs) | _ \<Rightarrow> Inl TypeError)"

definition plain_get_key :: "json \<Rightarrow> string \<Rightarrow> json" where
  "plain_get_key j k =
     (case j of
        JObj kvs \<Rightarrow> (case map_of kvs k of None \<Rightarrow> JNull | Some v \<Rightarrow> v)
      | _ \<Rightarrow> JNull)"

definition lower_char :: "char \<Rightarrow> char" where
  "lower_char c =
     (let n = (of_char c :: nat) in if 65 \<le> n \<and> n \<le> 90 then char_of (n + 32) else c)"

fun has_host :: "string \<Rightarrow> bool" where
  "has_host [] = False"
| "has_host (c # cs) = (c \<noteq> CHR ''/'')"

definition accepts_url :: "string \<Rightarrow> bool" where
  "accepts_url u =
     (let l = map lower_char u
      in (prefix ''http://'' l \<and> has_host (drop 7 l)) \<or> (prefix ''https://'' l \<and> has_host (drop 8 l)))"

definition scripted_env ::
  "(error + response) list \<Rightarrow> (error + response) list \<Rightarrow> (error + response) list \<Rightarrow> env" where
  "scripted_env tokens answers files =
     \<lparr>token_post = (\<lambda>h. answer_at tokens (length (filter is_token_post h))),
      session_send = (\<lambda>h req. if accepts_url (url req)
                                then answer_at answers (length (filter is_sent h))
                                else Inl RequestsError),
      plain_get = (\<lambda>h u. if accepts_url u
                            then answer_at files (length (filter is_web_get h))
                            else Inl RequestsError),
      py_float = plain_float,
      dotdictify = plain_dotdictify,
      dd_get = plain_get_key\<rparr>"

text \<open>A \<^verbatim>\<open>Graph\<close> that has been used before and holds the token \<^verbatim>\<open>T1\<close>.\<close>

definition graph0 :: graph where
  "graph0 = \<lparr>session = True, auth_header = Some [(''Authorization'', ''Bearer T1'')],
             graph_url = ''https://graph/v1.0/'', history = []\<rparr>"

definition unauthorized :: response where
  "unauthorized = mk_response 401 ''unauthorized'' None"

definition token_T2 :: response where
  "token_T2 = mk_response 200 ''token'' (Some (JObj [(''access_token'', JStr ''T2'')]))"

definition users_request :: http_request where
  "users_request = \<lparr>http_method = ''GET'', url = ''https://graph/v1.0/users'',
                     headers = Some [(''Authorization'', ''Bearer T1'')], params = None\<rparr>"

lemmas world_simps = scripted_env_def answer_at_def graph0_def mk_response_def ok_def
  unauthorized_def token_T2_def users_request_def

text \<open>A batch for the site-resolution endpoint: the server answers each group's request
  with the same site descriptor.\<close>

definition site_G1 :: response where
  "site_G1 = mk_response 200 ''site'' (Some (JObj [(''webUrl'', JStr ''https://sp/sites/g1'')]))"

definition batch_env :: env where
  "batch_env = scripted_env [] [Inr site_G1, Inr site_G1] []"

definition site_G1_request :: http_request where
  "site_G1_request = \<lparr>http_method = ''GET'', url = ''https://graph/v1.0/groups/G1/sites/root'',
                       headers = Some [(''Authorization'', ''Bearer T1'')], params = None\<rparr>"

text \<open>A resolution chain in which the site is found and its drive is not.\<close>

definition site_found :: response where
  "site_found = mk_response 200 ''site'' (Some (JObj [(''id'', JStr ''S1'')]))"

definition drive_missing :: response where
  "drive_missing = mk_response 404 ''no drive'' None"

definition chain_env :: env where
  "chain_env = scripted_env [] [Inr site_found, Inr drive_missing, Inr (mk_response 200 ''meta'' None)]
                 [Inr (mk_response 200 ''bytes'' None)]"

definition site_request :: http_request where
  "site_request = \<lparr>http_method = ''GET'', url = ''https://graph/v1.0/sites/contoso:/teams/x'',
                    headers = Some [(''Authorization'', ''Bearer T1'')], params = None\<rparr>"

definition drive_request :: http_request where
  "drive_request = \<lparr>http_method = ''GET'', url = ''https://graph/v1.0//sites/S1/drive'',
                     headers = Some [(''Authorization'', ''Bearer T1'')], params = None\<rparr>"

text \<open>
  The time a history spent suspended, in milliseconds: \<^verbatim>\<open>time.sleep\<close> takes its argument
  in seconds.
\<close>

definition suspended_ms :: "event list \<Rightarrow> rat" where
  "suspended_ms h = sum_list (map (\<lambda>e. case e of Slept x \<Rightarrow> 1000 * x | _ \<Rightarrow> 0) h)"

text \<open>A collection of one page, fetched with an inter-page delay of \<^verbatim>\<open>500\<close> configured.\<close>

definition one_page :: response where
  "one_page = mk_response 200 ''page'' (Some (JObj [(''value'', JArr [JStr ''u1'', JStr ''u2''])]))"

definition slow_config :: config where
  "slow_config = \<lparr>entities_path = ''value'', next_page = ''nextLink'', sleep = Some ''500''\<rparr>"

section \<open>Observations on a paged fetch\<close>

text \<open>
  What a history shows of the requests sent: \<open>sent_with P\<close> holds of an event unless it is
  a request that fails \<open>P\<close>; \<open>args_by_skiptoken a\<close> is the rule the source applies to the
  caller's query arguments \<open>a\<close>; \<open>page_exchanges\<close> lists, in order, the requests that
  were answered with a successful response, each with that response.
\<close>

fun sent_with :: "(http_request \<Rightarrow> bool) \<Rightarrow> event \<Rightarrow> bool" where
  "sent_with P (Sent r a) = P r"
| "sent_with P e = True"

definition args_by_skiptoken :: "args \<Rightarrow> http_request \<Rightarrow> bool" where
  "args_by_skiptoken a r =
     (params r = (if sublist ''$skiptoken'' (url r) then None else Some a))"

fun page_exchange :: "event \<Rightarrow> (http_request \<times> response) list" where
  "page_exchange (Sent q (Inr r)) = (if ok r then [(q, r)] else [])"
| "page_exchange e = []"

definition page_exchanges :: "event list \<Rightarrow> (http_request \<times> response) list" where
  "page_exchanges h = concat (map page_exchange h)"

text \<open>
  What the server put on a page: the array at the entities path of the response body and
  the value at the next-page path (\<open>JNull\<close> when the field is null or missing).
\<close>

definition page_content :: "env \<Rightarrow> config \<Rightarrow> response \<Rightarrow> (json list \<times> json) option" where
  "page_content E cfg r =
     (case json_body r of
        None \<Rightarrow> None
      | Some j \<Rightarrow>
          (case dotdictify E j of
             Inl e \<Rightarrow> None
           | Inr res \<Rightarrow>
               (case dd_get E res (entities_path cfg) of
                  JArr ents \<Rightarrow> Some (ents, dd_get E res (next_page cfg))
                | _ \<Rightarrow> None)))"

text \<open>The query arguments a page request is to carry, by its URL.\<close>

definition query_args :: "args \<Rightarrow> string \<Rightarrow> args option" where
  "query_args a u = (if sublist ''$skiptoken'' u then None else Some a)"

text \<open>The configured delay, when it is one \<^verbatim>\<open>time.sleep\<close> accepts: the state after it.\<close>

definition delayed :: "env \<Rightarrow> config \<Rightarrow> graph \<Rightarrow> graph option" where
  "delayed E cfg g =
     (case sleep cfg of
        None \<Rightarrow> Some g
      | Some s \<Rightarrow>
          (case py_float E s of
             Inl e \<Rightarrow> None
           | Inr x \<Rightarrow>
               if 0 \<le> x \<and> x * 10 ^ 9 < 2 ^ 63
               then Some (g\<lparr>history := history g @ [Slept x]\<rparr>) else None))"

text \<open>
  A sequence of successfully fetched pages, in the words of the specification. A page is
  a response of the server with the entity collection and the cursor it holds. Starting at
  the URL \<open>u\<close>: after the delay, the Authenticated Request Executor, asked to GET \<open>u\<close>,
  returns the first page's response, which is a success and holds that collection and that
  cursor; the next page is asked for at that cursor; and the last page is the one whose
  cursor is null or missing. The result is the state after the last page.
\<close>

fun cursor_chain ::
  "env \<Rightarrow> config \<Rightarrow> args \<Rightarrow> string \<Rightarrow> graph \<Rightarrow> (response \<times> json list \<times> json) list \<Rightarrow> graph option" where
  "cursor_chain E cfg a u g [] = None"
| "cursor_chain E cfg a u g ((r, ents, cur) # ps) =
     (case delayed E cfg g of
        None \<Rightarrow> None
      | Some g1 \<Rightarrow>
          (case request E ''GET'' (JStr u) (query_args a u) g1 of
             (Inl e, g2) \<Rightarrow> None
           | (Inr r', g2) \<Rightarrow>
               if r' = r \<and> ok r \<and> page_content E cfg r = Some (ents, cur) then
                 (case cur of
                    JNull \<Rightarrow> if ps = [] then Some g2 else None
                  | JStr c \<Rightarrow> if ps = [] then None else cursor_chain E cfg a c g2 ps
                  | _ \<Rightarrow> None)
               else None))"

text \<open>The cursor URLs a sequence of pages hands out, in order.\<close>

fun cursor_url :: "response \<times> json list \<times> json \<Rightarrow> string list" where
  "cursor_url (r, ents, JStr c) = [c]"
| "cursor_url p = []"

definition cursor_urls :: "(response \<times> json list \<times> json) list \<Rightarrow> string list" where
  "cursor_urls ps = concat (map cursor_url ps)"

text \<open>Two pages of users; the cursor of the first carries a skip token.\<close>

definition paging_config :: config where
  "paging_config = \<lparr>entities_path = ''value'', next_page = ''nextLink'', sleep = None\<rparr>"

definition first_page :: response where
  "first_page = mk_response 200 ''page 1''
     (Some (JObj [(''value'', JArr [JStr ''u1'', JStr ''u2'']),
                  (''nextLink'', JStr ''https://graph/v1.0/users?$skiptoken=X'')]))"

definition last_page :: response where
  "last_page = mk_response 200 ''page 2'' (Some (JObj [(''value'', JArr [JStr ''u3''])]))"

text \<open>The same first page with a cursor that carries no skip token.\<close>

definition first_page_plain_cursor :: response where
  "first_page_plain_cursor = mk_response 200 ''page 1''
     (Some (JObj [(''value'', JArr [JStr ''u1'', JStr ''u2'']),
                  (''nextLink'', JStr ''https://graph/v1.0/users?page=2'')]))"

definition users_page_request :: "string \<Rightarrow> args option \<Rightarrow> http_request" where
  "users_page_request u kw = \<lparr>http_method = ''GET'', url = u,
      headers = Some [(''Authorization'', ''Bearer T1'')], params = kw\<rparr>"

section \<open>Token Manager: failed acquisitions\<close>

lemma users_url_accepted [simp]: "accepts_url ''https://graph/v1.0/users''"
  by code_simp

text \<open>
  Claim C6, where the code falls short of it. When the token endpoint answers with a status
  that is not a success, \<^verbatim>\<open>get_token\<close> does fail and the stored bearer credential is
  the one held before the attempt, as the claim says. But the error is not one that carries
  the response body: the statement reached is a bare \<^verbatim>\<open>raise\<close> with no exception
  active, and what comes out is the interpreter's \<^verbatim>\<open>RuntimeError\<close> with its fixed
  message, whatever the response was.
\<close>

theorem get_token_failure_raises:
  assumes "token_post E (history g) = Inr resp" and "\<not> ok resp"
  shows "fst (get_token E g) = Inl (RuntimeError ''No active exception to reraise'')
       \<and> auth_header (snd (get_token E g)) = auth_header g
       \<and> history (snd (get_token E g)) = history g @ [TokenPost (Inr resp)]"
  using assms by (simp add: get_token_def)

theorem get_token_failure_raises_witness:
  "fst (get_token (scripted_env [Inr (mk_response 401 ''denied'' None)] [] []) graph0)
     = Inl (RuntimeError ''No active exception to reraise'')
   \<and> auth_header (snd (get_token (scripted_env [Inr (mk_response 401 ''denied'' None)] [] []) graph0))
     = Some [(''Authorization'', ''Bearer T1'')]"
  using get_token_failure_raises
    [of "scripted_env [Inr (mk_response 401 ''denied'' None)] [] []" graph0
        "mk_response 401 ''denied'' None"]
  by (simp add: scripted_env_def answer_at_def graph0_def mk_response_def ok_def)

text \<open>
  Two rejections with different bodies raise the very same error value: nothing of the body
  is in it.
\<close>

theorem get_token_error_without_body:
  "fst (get_token (scripted_env [Inr (mk_response 401 ''denied'' None)] [] []) graph0)
     = Inl (RuntimeError ''No active exception to reraise'')
   \<and> fst (get_token (scripted_env [Inr (mk_response 401 ''expired'' None)] [] []) graph0)
     = Inl (RuntimeError ''No active exception to reraise'')"
  by (simp add: get_token_def scripted_env_def answer_at_def graph0_def mk_response_def ok_def)

text \<open>
  Claim C10. When the token endpoint answers with a success status and a JSON object that
  has no \<^verbatim>\<open>access_token\<close> field, \<^verbatim>\<open>"Bearer " + None\<close> raises a \<^verbatim>\<open>TypeError\<close>; no
  credential is stored and the one held before stays.
\<close>

theorem get_token_missing_access_token:
  assumes "token_post E (history g) = Inr resp" and "ok resp"
    and "json_body resp = Some (JObj kvs)" and "map_of kvs ''access_token'' = None"
  shows "fst (get_token E g) = Inl TypeError
       \<and> auth_header (snd (get_token E g)) = auth_header g"
  using assms by (simp add: get_token_def json_get_def)

theorem get_token_missing_access_token_witness:
  "fst (get_token (scripted_env [Inr (mk_response 200 ''{}'' (Some (JObj [(''error'', JStr ''x'')])))] [] []) graph0)
     = Inl TypeError
   \<and> auth_header (snd (get_token (scripted_env [Inr (mk_response 200 ''{}'' (Some (JObj [(''error'', JStr ''x'')])))] [] []) graph0))
     = Some [(''Authorization'', ''Bearer T1'')]"
  using get_token_missing_access_token
    [of "scripted_env [Inr (mk_response 200 ''{}'' (Some (JObj [(''error'', JStr ''x'')])))] [] []" graph0
        "mk_response 200 ''{}'' (Some (JObj [(''error'', JStr ''x'')]))" "[(''error'', JStr ''x'')]"]
  by (simp add: scripted_env_def answer_at_def graph0_def mk_response_def ok_def)

section \<open>Streaming Encoder: the shape of the output\<close>

lemma stream_rows_shape:
  "stream_rows dumps first rows =
     (case rows of
        [] \<Rightarrow> []
      | r # rs \<Rightarrow> (if first then [] else ['','']) @ dumps r # concat (map (\<lambda>x. ['','', dumps x]) rs))"
proof (induction rows arbitrary: first)
  case Nil
  show ?case by simp
next
  case (Cons r rs)
  show ?case by (simp add: Cons.IH [of False] split: list.splits)
qed

text \<open>
  Claim C7. For a finite input the chunks are an opening bracket, the first record, a comma
  and a record for every later one, and a closing bracket; no records give \<^verbatim>\<open>[]\<close> and
  three give \<^verbatim>\<open>[r1,r2,r3]\<close>. For an input that raises after its records, the chunks are
  the same without the closing bracket (\<^verbatim>\<open>[r1,r2\<close> after two records) and the exception
  goes on to the consumer.
\<close>

theorem stream_json_output:
  "fst (stream_json dumps (rows, None)) =
      [''[''] @ (case rows of [] \<Rightarrow> [] | r # rs \<Rightarrow> dumps r # concat (map (\<lambda>x. ['','', dumps x]) rs)) @ ['']'']
   \<and> snd (stream_json dumps (rows, None)) = None
   \<and> concat (fst (stream_json dumps ([], None))) = ''[]''
   \<and> concat (fst (stream_json dumps ([r1, r2, r3], None)))
        = ''['' @ dumps r1 @ '','' @ dumps r2 @ '','' @ dumps r3 @ '']''
   \<and> stream_json dumps (rows, Some e) =
        ([''[''] @ (case rows of [] \<Rightarrow> [] | r # rs \<Rightarrow> dumps r # concat (map (\<lambda>x. ['','', dumps x]) rs)), Some e)
   \<and> concat (fst (stream_json dumps ([r1, r2], Some e))) = ''['' @ dumps r1 @ '','' @ dumps r2"
  by (simp add: stream_json_def stream_rows_shape split: list.splits)

section \<open>Authenticated Request Executor: the retry after a 401\<close>

text \<open>
  Claim C1, as amended. When the first response to a request has status 401, the executor
  makes exactly one token acquisition. If the acquisition succeeds, it sends the same
  request once more and returns whatever that second send gives, a second 401 included,
  with no further acquisition and no further send. If the acquisition fails, its error goes
  to the caller and nothing is sent again.
\<close>

theorem request_unauthorized_retry:
  assumes "open_session E g = (Inr (), g1)"
    and "req = \<lparr>http_method = m, url = s, headers = auth_header g1, params = kw\<rparr>"
    and "session_send E (history g1) req = Inr r1" and "status_code r1 = 401"
    and "h2 = history g1 @ [Sent req (Inr r1)]"
    and "t = token_post E h2"
    and "a2 = session_send E (h2 @ [TokenPost t]) req"
  shows "(case fst (get_token E (g1\<lparr>history := h2\<rparr>)) of
            Inl e \<Rightarrow>
              fst (request E m (JStr s) kw g) = Inl e
              \<and> history (snd (request E m (JStr s) kw g)) = h2 @ [TokenPost t]
          | Inr u \<Rightarrow>
              fst (request E m (JStr s) kw g) = a2
              \<and> history (snd (request E m (JStr s) kw g)) = h2 @ [TokenPost t, Sent req a2])"
  using assms
  by (auto simp add: request_def send_def get_token_def Let_def
      split: sum.splits prod.splits json.splits if_splits)

theorem request_unauthorized_retry_witness:
  "fst (request (scripted_env [Inr token_T2] [Inr unauthorized, Inr unauthorized] []) ''GET''
          (JStr ''https://graph/v1.0/users'') None graph0) = Inr unauthorized
   \<and> history (snd (request (scripted_env [Inr token_T2] [Inr unauthorized, Inr unauthorized] []) ''GET''
          (JStr ''https://graph/v1.0/users'') None graph0))
       = [Sent users_request (Inr unauthorized), TokenPost (Inr token_T2),
          Sent users_request (Inr unauthorized)]"
  using request_unauthorized_retry
    [of "scripted_env [Inr token_T2] [Inr unauthorized, Inr unauthorized] []" graph0 graph0
        users_request "''GET''" "''https://graph/v1.0/users''" None unauthorized
        "[Sent users_request (Inr unauthorized)]" "Inr token_T2" "Inr unauthorized"]
  by (simp add: world_simps open_session_def get_token_def json_get_def)

text \<open>
  Against C1 as stated: the first response is a 401 and the token endpoint then answers
  500. The acquisition fails, \<^verbatim>\<open>request\<close> ends with its error, and the request has been
  sent once only.
\<close>

theorem request_refresh_failure_no_retry:
  "request (scripted_env [Inr (mk_response 500 ''down'' None)]
              [Inr unauthorized, Inr (mk_response 200 ''ok'' None)] []) ''GET''
          (JStr ''https://graph/v1.0/users'') None graph0
   = (Inl (RuntimeError ''No active exception to reraise''),
      graph0\<lparr>history := [Sent users_request (Inr unauthorized),
                          TokenPost (Inr (mk_response 500 ''down'' None))]\<rparr>)"
  by code_simp

text \<open>
  Claim C2 at a failing input. The \<^verbatim>\<open>Graph\<close> holds token \<^verbatim>\<open>T1\<close>, the first response is a
  401 and the refresh brings \<^verbatim>\<open>T2\<close>. The request sent again still carries
  \<^verbatim>\<open>Bearer T1\<close>, while \<^verbatim>\<open>self.auth_header\<close> is \<^verbatim>\<open>Bearer T2\<close> by then.
\<close>

theorem request_retry_carries_stale_header:
  "history (snd (request (scripted_env [Inr token_T2]
                    [Inr unauthorized, Inr (mk_response 200 ''ok'' None)] []) ''GET''
                  (JStr ''https://graph/v1.0/users'') None graph0))
     = [Sent \<lparr>http_method = ''GET'', url = ''https://graph/v1.0/users'',
              headers = Some [(''Authorization'', ''Bearer T1'')], params = None\<rparr>
          (Inr unauthorized),
        TokenPost (Inr token_T2),
        Sent \<lparr>http_method = ''GET'', url = ''https://graph/v1.0/users'',
              headers = Some [(''Authorization'', ''Bearer T1'')], params = None\<rparr>
          (Inr (mk_response 200 ''ok'' None))]
   \<and> auth_header (snd (request (scripted_env [Inr token_T2]
                    [Inr unauthorized, Inr (mk_response 200 ''ok'' None)] []) ''GET''
                  (JStr ''https://graph/v1.0/users'') None graph0))
     = Some [(''Authorization'', ''Bearer T2'')]"
  by (simp add: world_simps request_def open_session_def send_def get_token_def json_get_def Let_def)

section \<open>Site resolution: the identifier of an entity\<close>

lemma split_sep_not_Nil: "split_sep c s \<noteq> []"
  by (induction s) (auto split: list.splits)

lemma split_sep_single: "(tl (split_sep c s) = []) = (c \<notin> set s)"
  using split_sep_not_Nil [of c]
  by (induction s) (auto split: list.splits)

lemma split_sep_no_sep: "c \<notin> set s \<Longrightarrow> split_sep c s = [s]"
  by (induction s) auto

lemma last_split_sep: "last (split_sep c s) = rev (takeWhile (\<lambda>x. x \<noteq> c) (rev s))"
proof (induction s)
  case Nil
  show ?case by simp
next
  case (Cons x xs)
  show ?case
  proof (cases "c \<in> set (x # xs)")
    case False
    then have "\<forall>y\<in>set (rev (x # xs)). y \<noteq> c" by auto
    then have "takeWhile (\<lambda>x. x \<noteq> c) (rev (x # xs)) = rev (x # xs)"
      by (simp only: takeWhile_eq_all_conv)
    then have "rev (takeWhile (\<lambda>x. x \<noteq> c) (rev (x # xs))) = x # xs"
      by (simp only: rev_rev_ident)
    moreover have "last (split_sep c (x # xs)) = x # xs"
      by (simp only: split_sep_no_sep [OF False] last.simps refl if_True)
    ultimately show ?thesis by (simp only:)
  next
    case True
    show ?thesis
    proof (cases "x = c")
      case True
      then show ?thesis
        using Cons.IH split_sep_not_Nil [of c xs]
        by (simp add: takeWhile_append)
    next
      case False
      with True have mem: "c \<in> set xs" by simp
      obtain w ws where ws: "split_sep c xs = w # ws"
        using split_sep_not_Nil [of c xs] by (cases "split_sep c xs") auto
      have "ws \<noteq> []" using split_sep_single [of c xs] ws mem by simp
      moreover have "takeWhile (\<lambda>x. x \<noteq> c) (rev xs @ [x]) = takeWhile (\<lambda>x. x \<noteq> c) (rev xs)"
        using mem by (intro takeWhile_append1 [of c]) auto
      ultimately show ?thesis using Cons.IH ws False by simp
    qed
  qed
qed

lemma is_id_key_after_last_colon:
  "is_id_key k = (rev (takeWhile (\<lambda>x. x \<noteq> CHR '':'') (rev k)) = ''id'')"
  by (simp add: is_id_key_def last_split_sep)

lemma group_id_loop_filter:
  "group_id_loop kvs acc =
     (case filter (\<lambda>kv. is_id_key (fst kv)) kvs of
        [] \<Rightarrow> acc
      | m # ms \<Rightarrow> Some (snd (last (m # ms))))"
proof (induction kvs arbitrary: acc)
  case Nil
  show ?case by simp
next
  case (Cons kv kvs)
  obtain k v where kv: "kv = (k, v)" by (cases kv)
  show ?case
    by (simp add: kv Cons.IH split: list.splits)
qed

lemma siteurls_loop_append:
  "siteurls_loop E (pre @ post) g =
     (case siteurls_loop E pre g of
        (ys, Finished, g1) \<Rightarrow>
          (case siteurls_loop E post g1 of (zs, r, g2) \<Rightarrow> (ys @ zs, r, g2))
      | (ys, r, g1) \<Rightarrow> (ys, r, g1))"
proof (induction pre arbitrary: g)
  case Nil
  show ?case by (simp split: prod.splits)
next
  case (Cons x xs)
  show ?case
    by (simp add: Cons.IH split: prod.splits sum.splits outcome.splits)
qed

text \<open>
  Claim C8, as amended. A key counts when the part of its name after the last \<^verbatim>\<open>:\<close> is
  \<^verbatim>\<open>id\<close>. The identifier extracted from an entity is the value of the last such key, in
  the order of the record's keys. For an entity with no such key \<^verbatim>\<open>set_group_id\<close> fails
  with an \<^verbatim>\<open>UnboundLocalError\<close> (it has no fallback), and that ends the batch at this
  entity: what the entities before it produced stays, nothing after it is processed.
\<close>

theorem set_group_id_last_match:
  "is_id_key k = (rev (takeWhile (\<lambda>x. x \<noteq> CHR '':'') (rev k)) = ''id'')
   \<and> set_group_id (JObj kvs) =
     (case filter (\<lambda>kv. is_id_key (fst kv)) kvs of
        [] \<Rightarrow> Inl UnboundLocalError
      | m # ms \<Rightarrow> Inr (snd (last (m # ms))))
   \<and> (filter (\<lambda>kv. is_id_key (fst kv)) kvs = [] \<longrightarrow>
        get_all_siteurls E (JArr (pre @ JObj kvs # post)) g =
          (case get_all_siteurls E (JArr pre) g of
             (ys, Finished, g1) \<Rightarrow> (ys, Raised UnboundLocalError, g1)
           | (ys, r, g1) \<Rightarrow> (ys, r, g1)))"
proof (intro conjI)
  show "is_id_key k = (rev (takeWhile (\<lambda>x. x \<noteq> CHR '':'') (rev k)) = ''id'')"
    by (rule is_id_key_after_last_colon)
  show "set_group_id (JObj kvs) =
     (case filter (\<lambda>kv. is_id_key (fst kv)) kvs of
        [] \<Rightarrow> Inl UnboundLocalError
      | m # ms \<Rightarrow> Inr (snd (last (m # ms))))"
    by (simp add: set_group_id_def group_id_loop_filter split: list.splits)
  show "filter (\<lambda>kv. is_id_key (fst kv)) kvs = [] \<longrightarrow>
        get_all_siteurls E (JArr (pre @ JObj kvs # post)) g =
          (case get_all_siteurls E (JArr pre) g of
             (ys, Finished, g1) \<Rightarrow> (ys, Raised UnboundLocalError, g1)
           | (ys, r, g1) \<Rightarrow> (ys, r, g1))"
    by (auto simp add: set_group_id_def group_id_loop_filter get_all_siteurls_def
        siteurls_loop_append siteurl_step_def split: list.splits prod.splits outcome.splits)
qed

theorem set_group_id_last_match_witness:
  "set_group_id (JObj [(''name'', JStr ''x'')]) = Inl UnboundLocalError
   \<and> get_all_siteurls batch_env
        (JArr [JObj [(''g:id'', JStr ''G1'')], JObj [(''name'', JStr ''x'')], JObj [(''id'', JStr ''G3'')]])
        graph0
      = ([JObj [(''webUrl'', JStr ''https://sp/sites/g1''), (''_id'', JStr ''G1'')]],
         Raised UnboundLocalError,
         graph0\<lparr>history := [Sent site_G1_request (Inr site_G1)]\<rparr>)"
proof -
  have none: "\<not> is_id_key ''name''"
    by code_simp
  have before: "get_all_siteurls batch_env (JArr [JObj [(''g:id'', JStr ''G1'')]]) graph0
      = ([JObj [(''webUrl'', JStr ''https://sp/sites/g1''), (''_id'', JStr ''G1'')]],
         Finished,
         graph0\<lparr>history := [Sent site_G1_request (Inr site_G1)]\<rparr>)"
    by code_simp
  show ?thesis
    using set_group_id_last_match
      [where kvs = "[(''name'', JStr ''x'')]" and E = batch_env
         and pre = "[JObj [(''g:id'', JStr ''G1'')]]" and post = "[JObj [(''id'', JStr ''G3'')]]"
         and g = graph0 and k = "''name''"]
    by (simp add: none before)
qed

text \<open>
  Against C8 as stated: with two matching keys the value of the second is returned, not
  that of the first.
\<close>

theorem set_group_id_not_first:
  "set_group_id (JObj [(''a:id'', JStr ''1''), (''b:id'', JStr ''2'')]) = Inr (JStr ''2'')
   \<and> find (\<lambda>kv. is_id_key (fst kv)) [(''a:id'', JStr ''1''), (''b:id'', JStr ''2'')]
       = Some (''a:id'', JStr ''1'')"
  by code_simp

section \<open>Resolution Chain: a failed drive lookup\<close>

text \<open>
  Claim C5 at a failing input. The site lookup succeeds and the drive lookup gets a 404, so
  step 2 returns \<^verbatim>\<open>None\<close>. No request for the file's metadata is sent and nothing is
  fetched from the network, but \<^verbatim>\<open>get_file\<close> does not return \<^verbatim>\<open>None\<close>: it hands
  \<^verbatim>\<open>None\<close> to \<^verbatim>\<open>requests.get\<close>, which raises.
\<close>

theorem get_file_raises_without_drive:
  "get_site_documents_drive_url chain_env ''contoso:/teams/x'' graph0
     = (Inr None, graph0\<lparr>history := [Sent site_request (Inr site_found),
                                        Sent drive_request (Inr drive_missing)]\<rparr>)
   \<and> get_file chain_env ''docs/a.csv'' ''contoso:/teams/x'' graph0
     = (Inl RequestsError, graph0\<lparr>history := [Sent site_request (Inr site_found),
                                                 Sent drive_request (Inr drive_missing)]\<rparr>)"
  by code_simp

section \<open>Paged Entity Fetcher: the inter-page delay\<close>

text \<open>
  Claim C9 at a failing input. With the delay configured as \<^verbatim>\<open>500\<close>, fetching a
  collection of one page calls \<^verbatim>\<open>time.sleep(500.0)\<close>: a suspension of 500 seconds, that
  is 500000 milliseconds, where the configuration contract (and the source's own log line)
  says 500 milliseconds.
\<close>

theorem sleep_takes_seconds:
  "get_all_paged_entities (scripted_env [] [Inr one_page] []) slow_config 5 ''users'' [] graph0
     = ([JStr ''u1'', JStr ''u2''], Finished,
        graph0\<lparr>history := [Slept 500, Sent (users_request\<lparr>params := Some []\<rparr>) (Inr one_page)]\<rparr>)
   \<and> suspended_ms [Slept 500, Sent (users_request\<lparr>params := Some []\<rparr>) (Inr one_page)] = 500000"
  by code_simp

section \<open>Paged Entity Fetcher: the requests of a fetch\<close>

text \<open>Every step only adds to the history, and the requests it adds are the ones it was
  asked to send.\<close>

lemma get_token_history:
  "get_token E g = (x, g') \<Longrightarrow> \<exists>t. history g' = history g @ [TokenPost t]"
  by (auto simp add: get_token_def Let_def split: sum.splits json.splits if_splits)

lemma open_session_history:
  "open_session E g = (x, g') \<Longrightarrow>
     history g' = history g \<or> (\<exists>t. history g' = history g @ [TokenPost t])"
  by (auto simp add: open_session_def split: if_splits dest!: get_token_history)

lemma request_history:
  "\<exists>evs. history (snd (request E m u kw g)) = history g @ evs
     \<and> list_all (sent_with (\<lambda>r. http_method r = m \<and> JStr (url r) = u \<and> params r = kw)) evs"
proof -
  obtain x g1 where os: "open_session E g = (x, g1)" by (cases "open_session E g")
  from open_session_history [OF os]
  obtain evs0 where h1: "history g1 = history g @ evs0"
    and p0: "\<And>P. list_all (sent_with P) evs0"
    by auto
  show ?thesis
  proof (cases x)
    case (Inl e)
    with os h1 p0 show ?thesis by (auto simp add: request_def)
  next
    case (Inr u0)
    show ?thesis
    proof (cases u)
      case (JStr s)
      define req where "req = \<lparr>http_method = m, url = s, headers = auth_header g1, params = kw\<rparr>"
      obtain a1 g2 where s1: "send E req g1 = (a1, g2)" by (cases "send E req g1")
      then have h2: "history g2 = history g1 @ [Sent req a1]"
        by (auto simp add: send_def Let_def)
      show ?thesis
      proof (cases a1)
        case (Inl e)
        with os Inr JStr s1 h1 h2 p0 show ?thesis
          by (auto simp add: request_def req_def)
      next
        case r1: (Inr resp)
        show ?thesis
        proof (cases "status_code resp = 401")
          case False
          with os Inr JStr s1 h1 h2 p0 r1 show ?thesis
            by (auto simp add: request_def req_def)
        next
          case True
          obtain y g3 where gt: "get_token E g2 = (y, g3)" by (cases "get_token E g2")
          from get_token_history [OF gt] obtain t where h3: "history g3 = history g2 @ [TokenPost t]"
            by auto
          obtain a2 g4 where s2: "send E req g3 = (a2, g4)" by (cases "send E req g3")
          then have h4: "history g4 = history g3 @ [Sent req a2]"
            by (auto simp add: send_def Let_def)
          from os Inr JStr s1 h1 h2 p0 r1 True gt h3 s2 h4 show ?thesis
            by (cases y) (auto simp add: request_def req_def)
        qed
      qed
    qed (use os Inr h1 p0 in \<open>auto simp add: request_def\<close>)
  qed
qed

lemma do_sleep_history:
  "do_sleep E cfg g = (x, g') \<Longrightarrow>
     history g' = history g \<or> (\<exists>t. history g' = history g @ [Slept t])"
  by (auto simp add: do_sleep_def split: option.splits sum.splits if_splits)

lemma fetch_page_history:
  "\<exists>evs. history (snd (fetch_page E cfg a np g)) = history g @ evs
     \<and> list_all (sent_with (args_by_skiptoken a)) evs"
proof -
  obtain x g1 where ds: "do_sleep E cfg g = (x, g1)" by (cases "do_sleep E cfg g")
  from do_sleep_history [OF ds]
  obtain evs0 where h1: "history g1 = history g @ evs0"
    and p0: "list_all (sent_with (args_by_skiptoken a)) evs0"
    by auto
  show ?thesis
  proof (cases x)
    case (Inl e)
    with ds h1 p0 show ?thesis by (auto simp add: fetch_page_def)
  next
    case (Inr u0)
    show ?thesis
    proof (cases "py_in ''$skiptoken'' np")
      case (Inl e)
      with ds Inr h1 p0 show ?thesis by (auto simp add: fetch_page_def)
    next
      case has: (Inr has)
      define kw where "kw = (if \<not> has then Some a else None)"
      obtain evs where h2: "history (snd (request E ''GET'' np kw g1)) = history g1 @ evs"
        and p1: "list_all (sent_with (\<lambda>r. http_method r = ''GET'' \<and> JStr (url r) = np \<and> params r = kw)) evs"
        using request_history [of E "''GET''" np kw g1] by auto
      have "sent_with (args_by_skiptoken a) ev"
        if "sent_with (\<lambda>r. http_method r = ''GET'' \<and> JStr (url r) = np \<and> params r = kw) ev" for ev
        using that has by (cases ev) (auto simp add: args_by_skiptoken_def kw_def)
      with p1 have p2: "list_all (sent_with (args_by_skiptoken a)) evs"
        by (auto simp add: list_all_iff)
      have "history (snd (fetch_page E cfg a np g)) = history g1 @ evs"
        using ds Inr has h2
        by (auto simp add: fetch_page_def kw_def split: prod.splits sum.splits option.splits)
      with h1 p0 p2 show ?thesis by auto
    qed
  qed
qed

lemma paged_loop_history:
  "\<exists>evs. history (snd (snd (paged_loop E cfg a fuel np g))) = history g @ evs
     \<and> list_all (sent_with (args_by_skiptoken a)) evs"
proof (induction fuel arbitrary: np g)
  case 0
  show ?case by simp
next
  case (Suc n)
  show ?case
  proof (cases "np = JNull")
    case True
    then show ?thesis by simp
  next
    case False
    obtain x g1 where fp: "fetch_page E cfg a np g = (x, g1)" by (cases "fetch_page E cfg a np g")
    obtain evs where h1: "history g1 = history g @ evs"
      and p1: "list_all (sent_with (args_by_skiptoken a)) evs"
      using fetch_page_history [of E cfg a np g] fp by auto
    show ?thesis
    proof (cases x)
      case (Inl e)
      with False fp h1 p1 show ?thesis by auto
    next
      case (Inr page)
      obtain ents nxt where page: "page = (ents, nxt)" by (cases page)
      obtain evs' where h2: "history (snd (snd (paged_loop E cfg a n nxt g1))) = history g1 @ evs'"
        and p2: "list_all (sent_with (args_by_skiptoken a)) evs'"
        using Suc.IH [of nxt g1] by auto
      from False fp Inr page h1 h2 p1 p2 show ?thesis
        by (auto split: prod.splits)
    qed
  qed
qed

text \<open>
  Claim C4, as amended. In a paged fetch, however long it runs, every request sent carries
  the caller's query arguments exactly when its URL does not contain \<^verbatim>\<open>$skiptoken\<close>: a
  page addressed by a cursor URL with a skip token is requested without them, and any
  other page, the first or a later one, is requested with them.
\<close>

theorem query_args_follow_skiptoken:
  "take (length (history g)) (history (snd (snd (get_all_paged_entities E cfg fuel path a g))))
     = history g
   \<and> list_all (sent_with (args_by_skiptoken a))
       (drop (length (history g)) (history (snd (snd (get_all_paged_entities E cfg fuel path a g)))))"
  using paged_loop_history [of E cfg a fuel "JStr (graph_url g @ path)" g]
  by (auto simp add: get_all_paged_entities_def)

text \<open>
  Against C4 as stated: the cursor of the first page carries no skip token, and the request
  for the second page has the caller's query arguments applied again.
\<close>

theorem query_args_reapplied_without_skiptoken:
  "history (snd (snd (get_all_paged_entities
             (scripted_env [] [Inr first_page_plain_cursor, Inr last_page] []) paging_config 2
             ''users'' [(''$top'', ''2'')] graph0)))
     = [Sent \<lparr>http_method = ''GET'', url = ''https://graph/v1.0/users'',
              headers = Some [(''Authorization'', ''Bearer T1'')],
              params = Some [(''$top'', ''2'')]\<rparr> (Inr first_page_plain_cursor),
        Sent \<lparr>http_method = ''GET'', url = ''https://graph/v1.0/users?page=2'',
              headers = Some [(''Authorization'', ''Bearer T1'')],
              params = Some [(''$top'', ''2'')]\<rparr> (Inr last_page)]"
  by code_simp

section \<open>Paged Entity Fetcher: following the cursor chain\<close>

lemma page_exchanges_append [simp]:
  "page_exchanges (xs @ ys) = page_exchanges xs @ page_exchanges ys"
  by (simp add: page_exchanges_def)

lemma page_exchanges_simps [simp]:
  "page_exchanges [] = []"
  "page_exchanges (TokenPost t # evs) = page_exchanges evs"
  "page_exchanges (Slept x # evs) = page_exchanges evs"
  "page_exchanges (Sent q (Inl e) # evs) = page_exchanges evs"
  "page_exchanges (Sent q (Inr r) # evs) = (if ok r then [(q, r)] else []) @ page_exchanges evs"
  by (simp_all add: page_exchanges_def)

lemma unauthorized_not_ok: "status_code resp = 401 \<Longrightarrow> \<not> ok resp"
  by (simp add: ok_def)

lemma request_exchange:
  assumes "request E m u kw g = (Inr r, g')" and "ok r"
  shows "\<exists>s evs q. u = JStr s \<and> history g' = history g @ evs
           \<and> page_exchanges evs = [(q, r)]
           \<and> http_method q = m \<and> url q = s \<and> params q = kw"
proof -
  obtain x g1 where os: "open_session E g = (x, g1)" by (cases "open_session E g")
  from open_session_history [OF os]
  obtain evs0 where h1: "history g1 = history g @ evs0" and f0: "page_exchanges evs0 = []"
    by auto
  from assms os obtain u0 where x: "x = Inr u0"
    by (cases x) (auto simp add: request_def)
  from assms os x obtain s where u: "u = JStr s"
    by (cases u) (auto simp add: request_def)
  define req where "req = \<lparr>http_method = m, url = s, headers = auth_header g1, params = kw\<rparr>"
  have q: "http_method req = m" "url req = s" "params req = kw"
    by (simp_all add: req_def)
  obtain a1 g2 where s1: "send E req g1 = (a1, g2)" by (cases "send E req g1")
  then have h2: "history g2 = history g1 @ [Sent req a1]"
    by (auto simp add: send_def Let_def)
  from assms os x u s1 obtain resp where a1: "a1 = Inr resp"
    by (cases a1) (auto simp add: request_def req_def)
  show ?thesis
  proof (cases "status_code resp = 401")
    case False
    with assms os x u s1 a1 have "r = resp" and "g' = g2"
      by (auto simp add: request_def req_def)
    with h1 h2 f0 a1 assms(2) u q show ?thesis
      by auto
  next
    case True
    obtain y g3 where gt: "get_token E g2 = (y, g3)" by (cases "get_token E g2")
    from get_token_history [OF gt] obtain t where h3: "history g3 = history g2 @ [TokenPost t]"
      by auto
    obtain a2 g4 where s2: "send E req g3 = (a2, g4)" by (cases "send E req g3")
    then have h4: "history g4 = history g3 @ [Sent req a2]"
      by (auto simp add: send_def Let_def)
    from assms os x u s1 a1 True gt s2 have "a2 = Inr r" and "g' = g4"
      by (cases y; auto simp add: request_def req_def)+
    with h1 h2 h3 h4 f0 a1 assms(2) u q unauthorized_not_ok [OF True] show ?thesis
      by auto
  qed
qed

lemma delayed_do_sleep:
  assumes "delayed E cfg g = Some g1"
  shows "do_sleep E cfg g = (Inr (), g1)
       \<and> (\<exists>evs. history g1 = history g @ evs \<and> page_exchanges evs = [])"
  using assms
  by (auto simp add: delayed_def do_sleep_def split: option.splits sum.splits if_splits)

lemma fetch_page_of_request:
  assumes "do_sleep E cfg g = (Inr (), g1)"
    and "request E ''GET'' (JStr u) (query_args a u) g1 = (Inr r, g2)"
    and "ok r" and "page_content E cfg r = Some (ents, cur)"
  shows "fetch_page E cfg a (JStr u) g = (Inr (ents, cur), g2)"
  using assms
  by (auto simp add: fetch_page_def query_args_def page_content_def
      split: option.splits sum.splits json.splits)

lemma cursor_chain_walk:
  assumes "cursor_chain E cfg a u g pages = Some g'" and "length pages \<le> fuel"
  shows "paged_loop E cfg a fuel (JStr u) g = (concat (map (\<lambda>p. fst (snd p)) pages), Finished, g')
       \<and> (\<exists>evs. history g' = history g @ evs
            \<and> map snd (page_exchanges evs) = map fst pages
            \<and> map (\<lambda>(q, r). (http_method q, url q, params q)) (page_exchanges evs)
                = map (\<lambda>v. (''GET'', v, query_args a v)) (u # cursor_urls pages))
       \<and> snd (snd (last pages)) = JNull
       \<and> length (cursor_urls pages) = length pages - 1"
  using assms
proof (induction pages arbitrary: u g fuel)
  case Nil
  then show ?case by simp
next
  case (Cons p ps)
  obtain r ents cur where p: "p = (r, ents, cur)" by (cases p)
  from Cons.prems(2) obtain n where fuel: "fuel = Suc n" and n: "length ps \<le> n"
    by (cases fuel) auto
  from Cons.prems(1) p obtain g1 g2 where dl: "delayed E cfg g = Some g1"
    and rq: "request E ''GET'' (JStr u) (query_args a u) g1 = (Inr r, g2)"
    and okr: "ok r" and pc: "page_content E cfg r = Some (ents, cur)"
    and rest: "(case cur of
                  JNull \<Rightarrow> if ps = [] then Some g2 else None
                | JStr c \<Rightarrow> if ps = [] then None else cursor_chain E cfg a c g2 ps
                | _ \<Rightarrow> None) = Some g'"
    by (auto split: option.splits prod.splits sum.splits if_splits)
  from delayed_do_sleep [OF dl] obtain evs0 where ds: "do_sleep E cfg g = (Inr (), g1)"
    and h0: "history g1 = history g @ evs0" and x0: "page_exchanges evs0 = []"
    by auto
  from request_exchange [OF rq okr] obtain evs1 q where
    h1: "history g2 = history g1 @ evs1" and x1: "page_exchanges evs1 = [(q, r)]"
    and q: "http_method q = ''GET''" "url q = u" "params q = query_args a u"
    by auto
  have fp: "fetch_page E cfg a (JStr u) g = (Inr (ents, cur), g2)"
    by (rule fetch_page_of_request [OF ds rq okr pc])
  show ?case
  proof (cases cur)
    case JNull
    with rest have ps: "ps = []" and g': "g' = g2" by (auto split: if_splits)
    have "paged_loop E cfg a fuel (JStr u) g = (concat (map (\<lambda>p. fst (snd p)) (p # ps)), Finished, g')"
      using fuel fp JNull p ps g' by (cases n) simp_all
    moreover have "history g' = history g @ (evs0 @ evs1)" using h0 h1 g' by simp
    moreover have "map snd (page_exchanges (evs0 @ evs1)) = map fst (p # ps)"
      using x0 x1 p ps by simp
    moreover have "map (\<lambda>(q, r). (http_method q, url q, params q)) (page_exchanges (evs0 @ evs1))
                = map (\<lambda>v. (''GET'', v, query_args a v)) (u # cursor_urls (p # ps))"
      using x0 x1 q p ps JNull by (simp add: cursor_urls_def)
    moreover have "snd (snd (last (p # ps))) = JNull" using p ps JNull by simp
    moreover have "length (cursor_urls (p # ps)) = length (p # ps) - 1"
      using p ps JNull by (simp add: cursor_urls_def)
    ultimately show ?thesis by blast
  next
    case (JStr c)
    with rest have ne: "ps \<noteq> []" and chain: "cursor_chain E cfg a c g2 ps = Some g'"
      by (auto split: if_splits)
    from Cons.IH [OF chain n] obtain evs2 where
      loop: "paged_loop E cfg a n (JStr c) g2 = (concat (map (\<lambda>p. fst (snd p)) ps), Finished, g')"
      and h2: "history g' = history g2 @ evs2"
      and x2: "map snd (page_exchanges evs2) = map fst ps"
      and x3: "map (\<lambda>(q, r). (http_method q, url q, params q)) (page_exchanges evs2)
                = map (\<lambda>v. (''GET'', v, query_args a v)) (c # cursor_urls ps)"
      and lst: "snd (snd (last ps)) = JNull"
      and len: "length (cursor_urls ps) = length ps - 1"
      by auto
    have "paged_loop E cfg a fuel (JStr u) g = (concat (map (\<lambda>p. fst (snd p)) (p # ps)), Finished, g')"
      using fuel fp JStr loop p by simp
    moreover have "history g' = history g @ (evs0 @ evs1 @ evs2)" using h0 h1 h2 by simp
    moreover have "map snd (page_exchanges (evs0 @ evs1 @ evs2)) = map fst (p # ps)"
      using x0 x1 x2 p by simp
    moreover have "map (\<lambda>(q, r). (http_method q, url q, params q)) (page_exchanges (evs0 @ evs1 @ evs2))
                = map (\<lambda>v. (''GET'', v, query_args a v)) (u # cursor_urls (p # ps))"
      using x0 x1 x3 q p JStr by (simp add: cursor_urls_def)
    moreover have "snd (snd (last (p # ps))) = JNull" using lst ne by simp
    moreover have "length (cursor_urls (p # ps)) = length (p # ps) - 1"
      using len ne p JStr by (cases ps) (auto simp add: cursor_urls_def)
    ultimately show ?thesis by blast
  qed (use rest in auto)
qed


text \<open>
  Claim C3, as amended. Given a sequence of N successfully fetched pages ending in a page
  with a null or missing cursor, and fuel for N pages, the fetcher yields the concatenation
  of the pages' entity collections in the server's order and leaves the loop normally. The
  successful exchanges it had are exactly those N responses, in order, each the answer to a
  GET of the first URL or of the cursor the page before handed out, in the order received;
  a cursor URL with \<^verbatim>\<open>$skiptoken\<close> in it is requested as it is, any other with the
  caller's query arguments as request parameters. The walk ends at the null cursor of the
  last page, after one fetch per page.
\<close>

theorem paged_fetch_follows_cursor_chain:
  assumes "cursor_chain E cfg a (graph_url g @ path) g pages = Some g'"
    and "length pages \<le> fuel"
  shows "get_all_paged_entities E cfg fuel path a g
           = (concat (map (\<lambda>p. fst (snd p)) pages), Finished, g')
       \<and> take (length (history g)) (history g') = history g
       \<and> map snd (page_exchanges (drop (length (history g)) (history g'))) = map fst pages
       \<and> map (\<lambda>(q, r). (http_method q, url q, params q))
             (page_exchanges (drop (length (history g)) (history g')))
           = map (\<lambda>v. (''GET'', v, query_args a v)) ((graph_url g @ path) # cursor_urls pages)
       \<and> snd (snd (last pages)) = JNull
       \<and> length (cursor_urls pages) = length pages - 1"
proof -
  from cursor_chain_walk [OF assms] obtain evs where
    loop: "paged_loop E cfg a fuel (JStr (graph_url g @ path)) g
             = (concat (map (\<lambda>p. fst (snd p)) pages), Finished, g')"
    and h: "history g' = history g @ evs"
    and x1: "map snd (page_exchanges evs) = map fst pages"
    and x2: "map (\<lambda>(q, r). (http_method q, url q, params q)) (page_exchanges evs)
              = map (\<lambda>v. (''GET'', v, query_args a v)) ((graph_url g @ path) # cursor_urls pages)"
    and lst: "snd (snd (last pages)) = JNull"
    and len: "length (cursor_urls pages) = length pages - 1"
    by blast
  from h have "take (length (history g)) (history g') = history g"
    and "drop (length (history g)) (history g') = evs"
    by simp_all
  with loop x1 x2 lst len show ?thesis
    by (simp add: get_all_paged_entities_def)
qed

theorem paged_fetch_follows_cursor_chain_witness:
  "get_all_paged_entities (scripted_env [] [Inr first_page, Inr last_page] []) paging_config 2
      ''users'' [(''$top'', ''2'')] graph0
    = ([JStr ''u1'', JStr ''u2'', JStr ''u3''], Finished,
       graph0\<lparr>history :=
         [Sent (users_page_request ''https://graph/v1.0/users'' (Some [(''$top'', ''2'')])) (Inr first_page),
          Sent (users_page_request ''https://graph/v1.0/users?$skiptoken=X'' None) (Inr last_page)]\<rparr>)
   \<and> page_exchanges
        [Sent (users_page_request ''https://graph/v1.0/users'' (Some [(''$top'', ''2'')])) (Inr first_page),
         Sent (users_page_request ''https://graph/v1.0/users?$skiptoken=X'' None) (Inr last_page)]
      = [(users_page_request ''https://graph/v1.0/users'' (Some [(''$top'', ''2'')]), first_page),
         (users_page_request ''https://graph/v1.0/users?$skiptoken=X'' None, last_page)]"
proof -
  have chain: "cursor_chain (scripted_env [] [Inr first_page, Inr last_page] []) paging_config
          [(''$top'', ''2'')] (graph_url graph0 @ ''users'') graph0
          [(first_page, [JStr ''u1'', JStr ''u2''], JStr ''https://graph/v1.0/users?$skiptoken=X''),
           (last_page, [JStr ''u3''], JNull)]
     = Some (graph0\<lparr>history :=
         [Sent (users_page_request ''https://graph/v1.0/users'' (Some [(''$top'', ''2'')])) (Inr first_page),
          Sent (users_page_request ''https://graph/v1.0/users?$skiptoken=X'' None) (Inr last_page)]\<rparr>)"
    by code_simp
  have exchanges: "page_exchanges
        [Sent (users_page_request ''https://graph/v1.0/users'' (Some [(''$top'', ''2'')])) (Inr first_page),
         Sent (users_page_request ''https://graph/v1.0/users?$skiptoken=X'' None) (Inr last_page)]
      = [(users_page_request ''https://graph/v1.0/users'' (Some [(''$top'', ''2'')]), first_page),
         (users_page_request ''https://graph/v1.0/users?$skiptoken=X'' None, last_page)]"
    by code_simp
  show ?thesis
    using paged_fetch_follows_cursor_chain [OF chain, of 2] exchanges
    by simp
qed

text \<open>
  Against C3 as stated: the cursor of the first page carries no skip token, and it is not
  followed as it is: the request for it has the caller's \<^verbatim>\<open>$filter\<close> argument added.
\<close>

theorem cursor_requested_with_query_args:
  "fst (get_all_paged_entities
          (scripted_env [] [Inr first_page_plain_cursor, Inr last_page] []) paging_config 2
          ''users'' [(''$filter'', ''x'')] graph0)
     = [JStr ''u1'', JStr ''u2'', JStr ''u3'']
   \<and> map (\<lambda>(q, r). (url q, params q))
         (page_exchanges (history (snd (snd (get_all_paged_entities
            (scripted_env [] [Inr first_page_plain_cursor, Inr last_page] []) paging_config 2
            ''users'' [(''$filter'', ''x'')] graph0)))))
     = [(''https://graph/v1.0/users'', Some [(''$filter'', ''x'')]),
        (''https://graph/v1.0/users?page=2'', Some [(''$filter'', ''x'')])]"
  by code_simp

end
